theory Spec2Isabelle
  imports Main "HOL-Library.Sublist" "HOL-Library.Multiset"
begin

section \<open>Strings of the tracker\<close>

text \<open>
  The tracker (\<^verbatim>\<open>src/job_application_tracker.py\<close>) works on Python \<^verbatim>\<open>str\<close> values.
  A model string is a \<^typ>\<open>string\<close> whose characters stand for the code points below 128;
  the character predicates below are Python's on that range (\<^verbatim>\<open>str.isspace\<close> and the
  pattern \<^verbatim>\<open>\s\<close> accept the separators 28 to 31 besides blank, tab, newline, vertical
  tab, form feed and carriage return). A character from 128 on is taken as neither a word
  character nor white space nor a cased letter, so the development speaks about ASCII
  mail text.
\<close>

definition code :: "char \<Rightarrow> nat" where
  "code c = of_char c"

definition is_upper :: "char \<Rightarrow> bool" where
  "is_upper c = (65 \<le> code c \<and> code c \<le> 90)"

definition is_lower :: "char \<Rightarrow> bool" where
  "is_lower c = (97 \<le> code c \<and> code c \<le> 122)"

definition is_digit :: "char \<Rightarrow> bool" where
  "is_digit c = (48 \<le> code c \<and> code c \<le> 57)"

definition is_cased :: "char \<Rightarrow> bool" where
  "is_cased c = (is_upper c \<or> is_lower c)"

text \<open>The pattern \<^verbatim>\<open>\w\<close>: letters, digits and the underscore.\<close>

definition is_word :: "char \<Rightarrow> bool" where
  "is_word c = (is_upper c \<or> is_lower c \<or> is_digit c \<or> code c = 95)"

text \<open>The pattern \<^verbatim>\<open>\s\<close> and \<^verbatim>\<open>str.isspace\<close>.\<close>

definition is_space :: "char \<Rightarrow> bool" where
  "is_space c = ((9 \<le> code c \<and> code c \<le> 13) \<or> (28 \<le> code c \<and> code c \<le> 32))"

definition lower_char :: "char \<Rightarrow> char" where
  "lower_char c = (if is_upper c then char_of (code c + 32) else c)"

definition upper_char :: "char \<Rightarrow> char" where
  "upper_char c = (if is_lower c then char_of (code c - 32) else c)"

text \<open>\<^verbatim>\<open>str.lower()\<close>\<close>

definition lower :: "string \<Rightarrow> string" where
  "lower s = map lower_char s"

text \<open>
  \<^verbatim>\<open>str.title()\<close>: a character that follows a cased character is lower-cased, any other
  one is upper-cased.
\<close>

fun title_from :: "bool \<Rightarrow> string \<Rightarrow> string" where
  "title_from prev [] = []"
| "title_from prev (c # cs) =
     (if prev then lower_char c else upper_char c) # title_from (is_cased c) cs"

definition title :: "string \<Rightarrow> string" where
  "title s = title_from False s"

text \<open>\<^verbatim>\<open>str.strip()\<close> without argument drops white space at both ends.\<close>

definition lstrip :: "string \<Rightarrow> string" where
  "lstrip s = dropWhile is_space s"

definition rstrip :: "string \<Rightarrow> string" where
  "rstrip s = rev (dropWhile is_space (rev s))"

definition strip :: "string \<Rightarrow> string" where
  "strip s = rstrip (lstrip s)"

text \<open>
  \<^verbatim>\<open>s.replace(old, '')\<close>: the occurrences of \<open>old\<close> are deleted from left to right
  without overlap; an empty \<open>old\<close> leaves the string as it is.
\<close>

function replace_del :: "string \<Rightarrow> string \<Rightarrow> string" where
  "replace_del old s =
     (if old = [] \<or> s = [] then s
      else if prefix old s then replace_del old (drop (length old) s)
      else hd s # replace_del old (tl s))"
  by pat_completeness auto
termination
  by (relation "measure (\<lambda>(old, s). length s)") auto

text \<open>The slice \<^verbatim>\<open>s[:n]\<close> is \<^term>\<open>take n s\<close>; \<^verbatim>\<open>x in s\<close> on strings is \<^term>\<open>sublist x s\<close>.\<close>

text \<open>\<^verbatim>\<open>any(kw in combined for kw in kws)\<close>\<close>

definition any_in :: "string list \<Rightarrow> string \<Rightarrow> bool" where
  "any_in kws combined = list_ex (\<lambda>kw. sublist kw combined) kws"

section \<open>Regular expressions\<close>

text \<open>
  The four patterns of the tracker repeat character classes only, so the syntax below has
  the repetition of a class (with its bounds and its greediness) and no general star.
  Group 1 is the only capturing group of every pattern.
\<close>

datatype atom = Word | Space | Ch char | Code nat | Dot

datatype re =
    Lit string
  | Rep "atom list" nat "nat option" bool
  | Cat re re
  | Or re re
  | Group re
  | Eos

text \<open>
  \<open>Code n\<close> is a literal character given by its code point; the en dash of the separator
  class \<^verbatim>\<open>[-\u2013|]\<close> (written here with its escape) is \<open>Code 8211\<close>, which no
  model character has.
  Under \<^verbatim>\<open>re.IGNORECASE\<close> (the flag \<open>ic\<close>) literal characters are compared after
  lower-casing.
\<close>

fun atom_ok :: "bool \<Rightarrow> atom \<Rightarrow> char \<Rightarrow> bool" where
  "atom_ok ic Word c = is_word c"
| "atom_ok ic Space c = is_space c"
| "atom_ok ic (Ch d) c = (if ic then lower_char c = lower_char d else c = d)"
| "atom_ok ic (Code n) c = (code c = n)"
| "atom_ok ic Dot c = (code c \<noteq> 10)"

definition in_class :: "bool \<Rightarrow> atom list \<Rightarrow> char \<Rightarrow> bool" where
  "in_class ic cls c = list_ex (\<lambda>a. atom_ok ic a c) cls"

fun lit_ok :: "bool \<Rightarrow> string \<Rightarrow> string \<Rightarrow> bool" where
  "lit_ok ic [] s = True"
| "lit_ok ic (d # ds) [] = False"
| "lit_ok ic (d # ds) (c # cs) = (atom_ok ic (Ch d) c \<and> lit_ok ic ds cs)"

text \<open>
  The numbers of characters a repetition may take, in the order the backtracking matcher
  tries them: a greedy one from the longest run down to the lower bound, a lazy one from
  the lower bound up.
\<close>

definition rep_counts :: "bool \<Rightarrow> atom list \<Rightarrow> nat \<Rightarrow> nat option \<Rightarrow> bool \<Rightarrow> string \<Rightarrow> nat list" where
  "rep_counts ic cls lo hi greedy s =
     (let run = length (takeWhile (in_class ic cls) s);
          top = (case hi of None \<Rightarrow> run | Some h \<Rightarrow> min h run);
          ks = [lo ..< Suc top]
      in if greedy then rev ks else ks)"

text \<open>
  A matcher state is the input still to read and the text of group 1, if the group has
  taken part. \<open>rmatch\<close> lists the states after the expression in the order in which
  backtracking reaches them; the first one is the match \<^verbatim>\<open>re\<close> reports.
  \<^verbatim>\<open>$\<close> holds at the end of the string and before a final newline.
\<close>

type_synonym mstate = "string \<times> string option"

fun rmatch :: "bool \<Rightarrow> re \<Rightarrow> mstate \<Rightarrow> mstate list" where
  "rmatch ic (Lit l) (s, g) = (if lit_ok ic l s then [(drop (length l) s, g)] else [])"
| "rmatch ic (Rep cls lo hi greedy) (s, g) =
     map (\<lambda>k. (drop k s, g)) (rep_counts ic cls lo hi greedy s)"
| "rmatch ic (Cat a b) st = concat (map (rmatch ic b) (rmatch ic a st))"
| "rmatch ic (Or a b) st = rmatch ic a st @ rmatch ic b st"
| "rmatch ic (Group r) (s, g) =
     map (\<lambda>(s', g'). (s', Some (take (length s - length s') s))) (rmatch ic r (s, g))"
| "rmatch ic Eos (s, g) = (if s = [] \<or> s = [char_of (10::nat)] then [(s, g)] else [])"

text \<open>
  \<^verbatim>\<open>re.search\<close>: the first start position with a match, from the left. The result is
  \<open>None\<close> without a match, and else what \<^verbatim>\<open>match.group(1)\<close> returns: \<open>None\<close> when
  group 1 took no part, its text otherwise.
\<close>

fun search :: "bool \<Rightarrow> re \<Rightarrow> string \<Rightarrow> string option option" where
  "search ic r [] = (case rmatch ic r ([], None) of [] \<Rightarrow> None | st # _ \<Rightarrow> Some (snd st))"
| "search ic r (c # cs) =
     (case rmatch ic r (c # cs, None) of [] \<Rightarrow> search ic r cs | st # _ \<Rightarrow> Some (snd st))"

definition one :: "atom list \<Rightarrow> re" where
  "one cls = Rep cls 1 (Some 1) True"

section \<open>The classification functions\<close>

datatype py_error = AttributeError | OSError

text \<open>
  \<^verbatim>\<open>match.group(1)\<close> is \<^verbatim>\<open>None\<close> for a group that took no part in the match, and a
  method call on it raises \<^verbatim>\<open>AttributeError\<close>; the extractors therefore return a value of
  \<^typ>\<open>py_error + string\<close>. \<open>OSError\<close> is what writing a file raises when its directory does
  not exist (\<^verbatim>\<open>FileNotFoundError\<close>, a subclass of \<^verbatim>\<open>OSError\<close>).
\<close>

text \<open>\<^verbatim>\<open>match.group(1).strip().title()\<close>, which both extractors apply to a match.\<close>

definition group_text :: "string option \<Rightarrow> py_error + string" where
  "group_text g = (case g of None \<Rightarrow> Inl AttributeError | Some t \<Rightarrow> Inr (title (strip t)))"

subsection \<open>\<^verbatim>\<open>is_job_alert\<close> (lines 72 to 81)\<close>

definition spam_indicators :: "string list" where
  "spam_indicators =
     [''linkedin.com'', ''indeed.com'', ''glassdoor.com'', ''monster.com'',
      ''jobrapido'', ''jooble'', ''jobtome'', ''talent.com'', ''simplyhired'',
      ''ziprecruiter'', ''newsletter'', ''job alert'', ''new jobs'',
      ''recommended for you'', ''jobs matching'', ''daily digest'']"

definition is_job_alert :: "string \<Rightarrow> string \<Rightarrow> bool" where
  "is_job_alert email_from subject =
     (let combined = lower (email_from @ '' '' @ subject)
      in any_in spam_indicators combined)"

subsection \<open>\<^verbatim>\<open>extract_company\<close> (lines 83 to 99)\<close>

text \<open>
  \<^verbatim>\<open>@([\w-]+)\.(com|io|ai|co)\<close>; the second pair of parentheses is group 2, which the code
  never reads.
\<close>

definition domain_pattern :: re where
  "domain_pattern =
     Cat (Lit ''@'')
    (Cat (Group (Rep [Word, Ch CHR ''-''] 1 None True))
    (Cat (Lit ''.'')
         (Or (Lit ''com'') (Or (Lit ''io'') (Or (Lit ''ai'') (Lit ''co''))))))"

text \<open>The separator class \<^verbatim>\<open>[-\u2013|]\<close>.\<close>

definition separator :: "atom list" where
  "separator = [Ch CHR ''-'', Code 8211, Ch CHR ''|'']"

text \<open>\<^verbatim>\<open>at\s+([\w\s]+?)(?:\s*[-\u2013|]|$)\<close>\<close>

definition subject_pattern :: re where
  "subject_pattern =
     Cat (Lit ''at'')
    (Cat (Rep [Space] 1 None True)
    (Cat (Group (Rep [Word, Space] 1 None False))
         (Or (Cat (Rep [Space] 0 None True) (one separator)) Eos)))"

definition strip_platforms :: "string \<Rightarrow> string" where
  "strip_platforms company =
     replace_del ''myworkday'' (replace_del ''workday''
       (replace_del ''lever'' (replace_del ''greenhouse'' company)))"

definition company_from_subject :: "string \<Rightarrow> py_error + string" where
  "company_from_subject subject =
     (case search False subject_pattern subject of
        None \<Rightarrow> Inr ''Unknown''
      | Some g \<Rightarrow> group_text g)"

definition extract_company :: "string \<Rightarrow> string \<Rightarrow> py_error + string" where
  "extract_company email_from subject =
     (case search False domain_pattern (lower email_from) of
        None \<Rightarrow> company_from_subject subject
      | Some None \<Rightarrow> Inl AttributeError
      | Some (Some g) \<Rightarrow>
          (let company = strip_platforms g
           in if company \<noteq> [] \<and> length company > 2 then Inr (title company)
              else company_from_subject subject))"

subsection \<open>\<^verbatim>\<open>categorize_status\<close> (lines 101 to 127)\<close>

definition rejection_kw :: "string list" where
  "rejection_kw =
     [''not selected'', ''unfortunately'', ''other candidates'',
      ''position filled'', ''not moving forward'', ''pursue other'',
      ''not be considered'']"

definition assessment_kw :: "string list" where
  "assessment_kw =
     [''codesignal'', ''hackerrank'', ''coding challenge'',
      ''assessment'', ''technical test'']"

definition interview_kw :: "string list" where
  "interview_kw =
     [''interview'', ''schedule'', ''meet with'', ''phone screen'',
      ''video call'', ''would like to speak'']"

definition applied_kw :: "string list" where
  "applied_kw =
     [''application received'', ''thank you for applying'',
      ''confirm your application'', ''submitted successfully'']"

definition status_text :: "string \<Rightarrow> string \<Rightarrow> string" where
  "status_text subject body =
     (let s = lower subject;
          b = lower (if body \<noteq> [] then take 500 body else [])
      in s @ '' '' @ b)"

definition categorize_status :: "string \<Rightarrow> string \<Rightarrow> string" where
  "categorize_status subject body =
     (let combined = status_text subject body
      in if any_in rejection_kw combined then ''Rejected''
         else if any_in assessment_kw combined then ''Assessment''
         else if any_in interview_kw combined then ''Interview''
         else if any_in applied_kw combined then ''Applied''
         else ''Other'')"

subsection \<open>\<^verbatim>\<open>extract_role\<close> (lines 129 to 144)\<close>

text \<open>\<^verbatim>\<open>(?:for\s+|role:\s*|position:\s*)([\w\s]{5,40}?)(?:\s+at|\s*[-\u2013|]|$)\<close>\<close>

definition role_pattern1 :: re where
  "role_pattern1 =
     Cat (Or (Cat (Lit ''for'') (Rep [Space] 1 None True))
         (Or (Cat (Lit ''role:'') (Rep [Space] 0 None True))
             (Cat (Lit ''position:'') (Rep [Space] 0 None True))))
    (Cat (Group (Rep [Word, Space] 5 (Some 40) False))
         (Or (Cat (Rep [Space] 1 None True) (Lit ''at''))
         (Or (Cat (Rep [Space] 0 None True) (one separator))
             Eos)))"

text \<open>
  \<^verbatim>\<open>(software engineer|data engineer|ml engineer|machine learning|data scientist|backend|frontend|full.stack)\<close>
\<close>

definition role_pattern2 :: re where
  "role_pattern2 =
     Group (Or (Lit ''software engineer'')
           (Or (Lit ''data engineer'')
           (Or (Lit ''ml engineer'')
           (Or (Lit ''machine learning'')
           (Or (Lit ''data scientist'')
           (Or (Lit ''backend'')
           (Or (Lit ''frontend'')
               (Cat (Lit ''full'') (Cat (one [Dot]) (Lit ''stack''))))))))))"

definition patterns :: "re list" where
  "patterns = [role_pattern1, role_pattern2]"

text \<open>The loop over the patterns (lines 136 to 144): each pattern is tried on the subject
  and, when the body is not empty, on the first 200 characters of the body, before the
  next pattern is looked at.\<close>

fun role_loop :: "re list \<Rightarrow> string \<Rightarrow> string \<Rightarrow> py_error + string" where
  "role_loop [] subject body = Inr ''Unknown''"
| "role_loop (pattern # rest) subject body =
     (case search True pattern subject of
        Some g \<Rightarrow> group_text g
      | None \<Rightarrow>
          (if body \<noteq> [] then
             (case search True pattern (take 200 body) of
                Some g \<Rightarrow> group_text g
              | None \<Rightarrow> role_loop rest subject body)
           else role_loop rest subject body))"

definition extract_role :: "string \<Rightarrow> string \<Rightarrow> py_error + string" where
  "extract_role subject body = role_loop patterns subject body"

section \<open>The pipeline\<close>

text \<open>
  \<open>raw_message\<close> holds what lines 181 to 204 read from a fetched mail: the \<^verbatim>\<open>From\<close> and
  \<^verbatim>\<open>Subject\<close> headers, the decoded plain-text body and \<^verbatim>\<open>internalDate\<close> in
  milliseconds, besides the identifier the mail was fetched by. Decoding the payload
  belongs to the mail service and is not modelled.
\<close>

record raw_message =
  msg_id :: string
  m_from :: string
  m_subject :: string
  m_body :: string
  m_internalDate :: int

text \<open>The dictionary appended at lines 207 to 213. A date is a point on a linear time
  scale, here an integer.\<close>

record application =
  Date :: int
  Company :: string
  Role :: string
  Status :: string
  Subject :: string

text \<open>
  One round of the loop at lines 172 to 213 on the list \<open>apps\<close> of \<^verbatim>\<open>self.applications\<close>.
  \<open>None\<close> is a mail that \<^verbatim>\<open>get_email_details\<close> could not fetch. \<open>fromtimestamp\<close> is
  the conversion \<^verbatim>\<open>datetime.fromtimestamp(int(date_ms)/1000)\<close> of the running process,
  which depends on its time zone and is a parameter here. An exception of an extractor
  leaves the loop.
\<close>

definition process_email ::
  "(int \<Rightarrow> int) \<Rightarrow> application list \<Rightarrow> raw_message option \<Rightarrow> py_error + application list" where
  "process_email fromtimestamp apps email =
     (case email of
        None \<Rightarrow> Inr apps
      | Some e \<Rightarrow>
          (if is_job_alert (m_from e) (m_subject e) then Inr apps
           else
             (case extract_company (m_from e) (m_subject e) of
                Inl err \<Rightarrow> Inl err
              | Inr company \<Rightarrow>
                  (case extract_role (m_subject e) (m_body e) of
                     Inl err \<Rightarrow> Inl err
                   | Inr role \<Rightarrow>
                       Inr (apps @
                         [\<lparr>Date = fromtimestamp (m_internalDate e),
                           Company = company,
                           Role = role,
                           Status = categorize_status (m_subject e) (m_body e),
                           Subject = m_subject e\<rparr>])))))"

fun analyze_applications ::
  "(int \<Rightarrow> int) \<Rightarrow> application list \<Rightarrow> raw_message option list \<Rightarrow> py_error + application list" where
  "analyze_applications fromtimestamp apps [] = Inr apps"
| "analyze_applications fromtimestamp apps (email # emails) =
     (case process_email fromtimestamp apps email of
        Inl err \<Rightarrow> Inl err
      | Inr apps' \<Rightarrow> analyze_applications fromtimestamp apps' emails)"

subsection \<open>\<^verbatim>\<open>generate_report\<close> (lines 309 to 321)\<close>

datatype cell = DateCell int | StrCell string

text \<open>The keys of the dictionary of lines 207 to 213 in the order they are written, which
  \<^verbatim>\<open>pd.DataFrame\<close> takes as its columns, and the values in the same order.\<close>

definition application_keys :: "string list" where
  "application_keys = [''Date'', ''Company'', ''Role'', ''Status'', ''Subject'']"

definition application_values :: "application \<Rightarrow> cell list" where
  "application_values a =
     [DateCell (Date a), StrCell (Company a), StrCell (Role a), StrCell (Status a),
      StrCell (Subject a)]"

record dataframe =
  columns :: "string list"
  records :: "application list"

definition DataFrame :: "application list \<Rightarrow> dataframe" where
  "DataFrame apps = \<lparr>columns = application_keys, records = apps\<rparr>"

text \<open>
  \<^verbatim>\<open>df.sort_values('Date', ascending=False)\<close> is a function of the pandas library: it
  returns the rows in non-increasing order of the column. It is modelled by an insertion
  sort on the negated date; pandas does not fix the order of rows with equal dates, and
  nothing below depends on it.
\<close>

definition sort_values_desc :: "dataframe \<Rightarrow> dataframe" where
  "sort_values_desc df = df\<lparr>records := sort_key (\<lambda>a. - Date a) (records df)\<rparr>"

text \<open>
  The files the report touches: the directories that exist and the tables written so far,
  by path. A table is its header and one row of cells for each record.
\<close>

type_synonym table = "string list \<times> cell list list"

record filesystem =
  dirs :: "string set"
  files :: "string \<rightharpoonup> table"

text \<open>The directory part of a path: the text before its last slash.\<close>

definition parent :: "string \<Rightarrow> string" where
  "parent path = rev (tl (dropWhile (\<lambda>c. c \<noteq> CHR ''/'') (rev path)))"

text \<open>
  \<^verbatim>\<open>df.to_csv(filename, index=False)\<close> opens the file for writing, which raises when the
  directory of the path does not exist, and else writes the header and the rows. Other
  failures of the operating system (a full disk, missing rights) are not modelled.
\<close>

definition to_csv :: "dataframe \<Rightarrow> string \<Rightarrow> filesystem \<Rightarrow> py_error + filesystem" where
  "to_csv df filename fs =
     (if parent filename \<in> dirs fs
      then Inr (fs\<lparr>files := (files fs)(filename \<mapsto>
                 (columns df, map application_values (records df)))\<rparr>)
      else Inl OSError)"

text \<open>
  \<open>today\<close> is \<^verbatim>\<open>datetime.now().strftime("%Y%m%d")\<close>, eight digits. The result is the
  returned frame (\<open>None\<close> when there is no application; nothing is written then) and the
  files afterwards, or the exception of the write. The directory \<^verbatim>\<open>output\<close> is created
  by \<^verbatim>\<open>generate_visualizations\<close> only (line 226), which \<^verbatim>\<open>main\<close> calls after
  \<^verbatim>\<open>generate_report\<close>; the lines after the write print the report and raise nothing.
\<close>

definition report_filename :: "string \<Rightarrow> string" where
  "report_filename today = ''output/applications_'' @ today @ ''.csv''"

definition generate_report ::
  "string \<Rightarrow> filesystem \<Rightarrow> application list \<Rightarrow> py_error + (dataframe option \<times> filesystem)" where
  "generate_report today fs apps =
     (if apps = [] then Inr (None, fs)
      else
        (let df = sort_values_desc (DataFrame apps);
             filename = report_filename today
         in case to_csv df filename fs of
              Inl err \<Rightarrow> Inl err
            | Inr fs' \<Rightarrow> Inr (Some df, fs')))"

section \<open>What a pattern matches\<close>

text \<open>
  Two notions the proofs below use. \<open>captures r\<close> holds when every way through \<open>r\<close>
  passes the group. \<open>accepts ic r w rest\<close> says that \<open>r\<close> can read exactly the text \<open>w\<close>
  when \<open>rest\<close> follows it (the text that follows matters for \<^verbatim>\<open>$\<close> only); it is the
  usual meaning of a regular expression and ignores the order of backtracking.
\<close>

fun captures :: "re \<Rightarrow> bool" where
  "captures (Group r) = True"
| "captures (Cat a b) = (captures a \<or> captures b)"
| "captures (Or a b) = (captures a \<and> captures b)"
| "captures r = False"

fun accepts :: "bool \<Rightarrow> re \<Rightarrow> string \<Rightarrow> string \<Rightarrow> bool" where
  "accepts ic (Lit l) w rest = (length w = length l \<and> lit_ok ic l w)"
| "accepts ic (Rep cls lo hi greedy) w rest =
     (list_all (in_class ic cls) w \<and> lo \<le> length w \<and>
      (case hi of None \<Rightarrow> True | Some h \<Rightarrow> length w \<le> h))"
| "accepts ic (Cat a b) w rest =
     (\<exists>u v. w = u @ v \<and> accepts ic a u (v @ rest) \<and> accepts ic b v rest)"
| "accepts ic (Or a b) w rest = (accepts ic a w rest \<or> accepts ic b w rest)"
| "accepts ic (Group r) w rest = accepts ic r w rest"
| "accepts ic Eos w rest = (w = [] \<and> (rest = [] \<or> rest = [char_of (10::nat)]))"

section \<open>Substrings across a join\<close>

text \<open>
  When a text is a concatenation \<open>a @ b\<close>, a substring \<open>p\<close> of it that lies neither in \<open>a\<close>
  nor in \<open>b\<close> has a proper beginning that ends \<open>a\<close> (\<open>joins_left\<close>) and the rest of it
  begins \<open>b\<close> (\<open>joins_right\<close>). Both can be computed when one side is known.
\<close>

definition joins_left :: "string \<Rightarrow> string \<Rightarrow> bool" where
  "joins_left p a = list_ex (\<lambda>k. suffix (take k p) a) [1 ..< length p]"

definition joins_right :: "string \<Rightarrow> string \<Rightarrow> bool" where
  "joins_right p b = list_ex (\<lambda>k. prefix (drop k p) b) [1 ..< length p]"

text \<open>The subjects of the rejection and of the confirmation in the end-to-end example of
  the specification.\<close>

definition rejected_subject :: string where
  "rejected_subject = ''Unfortunately, we have decided to move forward with other candidates''"

definition applied_subject :: string where
  "applied_subject = ''Thank you for applying to Acme - Software Engineer''"

text \<open>What one mail adds to the list of applications.\<close>

definition events_of :: "(int \<Rightarrow> int) \<Rightarrow> raw_message option \<Rightarrow> application list" where
  "events_of f email = (case process_email f [] email of Inl err \<Rightarrow> [] | Inr apps \<Rightarrow> apps)"

section \<open>Properties of strings and of the matcher\<close>

lemma lower_append: "lower (a @ b) = lower a @ lower b"
  by (simp add: lower_def)

lemma lower_blank: "lower '' '' = '' ''"
  by (simp add: lower_def lower_char_def is_upper_def code_def)

lemma any_in_iff: "any_in kws s \<longleftrightarrow> (\<exists>kw\<in>set kws. sublist kw s)"
  by (simp add: any_in_def list_ex_iff)

lemma status_text_eq: "status_text subject body = lower subject @ '' '' @ lower (take 500 body)"
  by (simp add: status_text_def lower_def)

lemma rmatch_keeps_group:
  "(s', g') \<in> set (rmatch ic r (s, g)) \<Longrightarrow> g \<noteq> None \<Longrightarrow> g' \<noteq> None"
proof (induction r arbitrary: s g s' g')
  case (Cat a b)
  from Cat.prems(1) obtain s1 g1 where
    m1: "(s1, g1) \<in> set (rmatch ic a (s, g))" and m2: "(s', g') \<in> set (rmatch ic b (s1, g1))"
    by auto
  from Cat.IH(1)[OF m1 Cat.prems(2)] have "g1 \<noteq> None" .
  from Cat.IH(2)[OF m2 this] show ?case .
qed (auto split: if_splits)

lemma rmatch_captures:
  "captures r \<Longrightarrow> (s', g') \<in> set (rmatch ic r (s, g)) \<Longrightarrow> g' \<noteq> None"
proof (induction r arbitrary: s g s' g')
  case (Cat a b)
  from Cat.prems(2) obtain s1 g1 where
    m1: "(s1, g1) \<in> set (rmatch ic a (s, g))" and m2: "(s', g') \<in> set (rmatch ic b (s1, g1))"
    by auto
  show ?case
  proof (cases "captures a")
    case True
    from Cat.IH(1)[OF True m1] have "g1 \<noteq> None" .
    from rmatch_keeps_group[OF m2 this] show ?thesis .
  next
    case False
    with Cat.prems(1) have "captures b" by simp
    from Cat.IH(2)[OF this m2] show ?thesis .
  qed
qed (auto split: if_splits)

lemma search_captures:
  "captures r \<Longrightarrow> search ic r s = Some g \<Longrightarrow> g \<noteq> None"
proof (induction s)
  case Nil
  show ?case
  proof (cases "rmatch ic r ([], None)")
    case Nil
    with Nil.prems show ?thesis by simp
  next
    case (Cons st sts)
    then have "(fst st, snd st) \<in> set (rmatch ic r ([], None))" by simp
    from rmatch_captures[OF Nil.prems(1) this] have "snd st \<noteq> None" .
    with Cons Nil.prems show ?thesis by simp
  qed
next
  case (Cons c cs)
  show ?case
  proof (cases "rmatch ic r (c # cs, None)")
    case Nil
    with Cons show ?thesis by simp
  next
    case (Cons st sts)
    then have "(fst st, snd st) \<in> set (rmatch ic r (c # cs, None))" by simp
    from rmatch_captures[OF Cons.prems(1) this] have "snd st \<noteq> None" .
    with Cons Cons.prems show ?thesis by simp
  qed
qed


lemma lit_ok_take:
  "lit_ok ic l s \<Longrightarrow> length l \<le> length s \<and> lit_ok ic l (take (length l) s)"
  by (induction ic l s rule: lit_ok.induct) auto

lemma lit_ok_append:
  "lit_ok ic l w \<Longrightarrow> lit_ok ic l (w @ rest)"
  by (induction ic l w rule: lit_ok.induct) auto

lemma rep_counts_set:
  "k \<in> set (rep_counts ic cls lo hi greedy s) \<longleftrightarrow>
     lo \<le> k \<and> k \<le> length (takeWhile (in_class ic cls) s) \<and>
     (case hi of None \<Rightarrow> True | Some h \<Rightarrow> k \<le> h)"
  by (auto simp: rep_counts_def Let_def split: option.splits)

lemma take_run_all:
  "k \<le> length (takeWhile P s) \<Longrightarrow> list_all P (take k s)"
  by (induction s arbitrary: k) (auto simp: take_Cons split: nat.splits if_splits)

lemma run_all_append:
  "list_all P w \<Longrightarrow> length w \<le> length (takeWhile P (w @ rest))"
  by (induction w) auto

lemma rmatch_sound:
  "(s', g') \<in> set (rmatch ic r (s, g)) \<Longrightarrow> \<exists>w. s = w @ s' \<and> accepts ic r w s'"
proof (induction r arbitrary: s g s' g')
  case (Lit l)
  then have ok: "lit_ok ic l s" and s': "s' = drop (length l) s" by (auto split: if_splits)
  from lit_ok_take[OF ok] have "length l \<le> length s" "lit_ok ic l (take (length l) s)" by auto
  then have "s = take (length l) s @ s' \<and> accepts ic (Lit l) (take (length l) s) s'"
    using s' by simp
  then show ?case by blast
next
  case (Rep cls lo hi greedy)
  then obtain k where k: "k \<in> set (rep_counts ic cls lo hi greedy s)" and s': "s' = drop k s"
    by auto
  from k have b: "lo \<le> k" "k \<le> length (takeWhile (in_class ic cls) s)"
    "(case hi of None \<Rightarrow> True | Some h \<Rightarrow> k \<le> h)" by (auto simp: rep_counts_set)
  have "length (takeWhile (in_class ic cls) s) \<le> length s" by (rule length_takeWhile_le)
  with b(2) have len: "length (take k s) = k" by simp
  have "s = take k s @ s' \<and> accepts ic (Rep cls lo hi greedy) (take k s) s'"
    using b take_run_all[OF b(2)] s' len by (auto split: option.splits)
  then show ?case by blast
next
  case (Cat a b)
  from Cat.prems obtain s1 g1 where
    m1: "(s1, g1) \<in> set (rmatch ic a (s, g))" and m2: "(s', g') \<in> set (rmatch ic b (s1, g1))"
    by auto
  from Cat.IH(1)[OF m1] obtain u where u: "s = u @ s1" "accepts ic a u s1" by blast
  from Cat.IH(2)[OF m2] obtain v where v: "s1 = v @ s'" "accepts ic b v s'" by blast
  from u v have "s = (u @ v) @ s' \<and> accepts ic (Cat a b) (u @ v) s'" by auto
  then show ?case by blast
next
  case (Or a b)
  then show ?case by fastforce
next
  case (Group r)
  then show ?case by fastforce
next
  case Eos
  then show ?case by (auto split: if_splits)
qed

lemma rmatch_complete:
  "accepts ic r w s' \<Longrightarrow> \<exists>g'. (s', g') \<in> set (rmatch ic r (w @ s', g))"
proof (induction r arbitrary: w s' g)
  case (Lit l)
  then show ?case by (auto simp: lit_ok_append)
next
  case (Rep cls lo hi greedy)
  then have "length w \<in> set (rep_counts ic cls lo hi greedy (w @ s'))"
    by (auto simp: rep_counts_set run_all_append split: option.splits)
  then have "(drop (length w) (w @ s'), g) \<in> set (rmatch ic (Rep cls lo hi greedy) (w @ s', g))"
    by (simp del: drop_append append_eq_conv_conj)
  then show ?case by auto
next
  case (Cat a b)
  from Cat.prems obtain u v where
    w: "w = u @ v" and a: "accepts ic a u (v @ s')" and b: "accepts ic b v s'" by auto
  from Cat.IH(1)[OF a, of g] obtain g1 where
    m1: "(v @ s', g1) \<in> set (rmatch ic a (u @ v @ s', g))" by blast
  from Cat.IH(2)[OF b, of g1] obtain g2 where
    m2: "(s', g2) \<in> set (rmatch ic b (v @ s', g1))" by blast
  from m1 m2 w show ?case by auto
next
  case (Or a b)
  then show ?case by fastforce
next
  case (Group r)
  from Group.prems have "accepts ic r w s'" by simp
  from Group.IH[OF this, of g] obtain g1 where "(s', g1) \<in> set (rmatch ic r (w @ s', g))" by blast
  then show ?case by force
next
  case Eos
  then show ?case by auto
qed

lemma rmatch_nonempty_iff:
  "rmatch ic r (s, g) \<noteq> [] \<longleftrightarrow> (\<exists>w v. s = w @ v \<and> accepts ic r w v)"
proof
  assume "rmatch ic r (s, g) \<noteq> []"
  then obtain st where "st \<in> set (rmatch ic r (s, g))" by (cases "rmatch ic r (s, g)") auto
  then have "(fst st, snd st) \<in> set (rmatch ic r (s, g))" by simp
  from rmatch_sound[OF this] show "\<exists>w v. s = w @ v \<and> accepts ic r w v" by blast
next
  assume "\<exists>w v. s = w @ v \<and> accepts ic r w v"
  then obtain w v where "s = w @ v" "accepts ic r w v" by blast
  with rmatch_complete[of ic r w v g] show "rmatch ic r (s, g) \<noteq> []" by auto
qed

lemma search_None_iff:
  "search ic r s = None \<longleftrightarrow> \<not> (\<exists>u w v. s = u @ w @ v \<and> accepts ic r w v)"
proof (induction s)
  case Nil
  have "search ic r [] = None \<longleftrightarrow> rmatch ic r ([], None) = []"
    by (simp split: list.splits)
  also have "\<dots> \<longleftrightarrow> \<not> (\<exists>w v. [] = w @ v \<and> accepts ic r w v)"
    using rmatch_nonempty_iff[of ic r "[]" None] by blast
  finally show ?case by simp
next
  case (Cons c cs)
  have "search ic r (c # cs) = None \<longleftrightarrow> rmatch ic r (c # cs, None) = [] \<and> search ic r cs = None"
    by (simp split: list.splits)
  also have "\<dots> \<longleftrightarrow> \<not> (\<exists>w v. c # cs = w @ v \<and> accepts ic r w v)
                 \<and> \<not> (\<exists>u w v. cs = u @ w @ v \<and> accepts ic r w v)"
    using rmatch_nonempty_iff[of ic r "c # cs" None] Cons.IH by blast
  also have "\<dots> \<longleftrightarrow> \<not> (\<exists>u w v. c # cs = u @ w @ v \<and> accepts ic r w v)"
  proof -
    have "(\<exists>u w v. c # cs = u @ w @ v \<and> accepts ic r w v) \<longleftrightarrow>
          (\<exists>w v. c # cs = w @ v \<and> accepts ic r w v) \<or> (\<exists>u w v. cs = u @ w @ v \<and> accepts ic r w v)"
    proof
      assume "\<exists>u w v. c # cs = u @ w @ v \<and> accepts ic r w v"
      then obtain u w v where e: "c # cs = u @ w @ v" and a: "accepts ic r w v" by blast
      show "(\<exists>w v. c # cs = w @ v \<and> accepts ic r w v) \<or> (\<exists>u w v. cs = u @ w @ v \<and> accepts ic r w v)"
      proof (cases u)
        case Nil
        with e a show ?thesis by auto
      next
        case (Cons x u')
        with e have "cs = u' @ w @ v" by simp
        with a show ?thesis by blast
      qed
    next
      assume "(\<exists>w v. c # cs = w @ v \<and> accepts ic r w v) \<or> (\<exists>u w v. cs = u @ w @ v \<and> accepts ic r w v)"
      then show "\<exists>u w v. c # cs = u @ w @ v \<and> accepts ic r w v"
      proof
        assume "\<exists>w v. c # cs = w @ v \<and> accepts ic r w v"
        then obtain w v where "c # cs = [] @ w @ v" "accepts ic r w v" by auto
        then show ?thesis by blast
      next
        assume "\<exists>u w v. cs = u @ w @ v \<and> accepts ic r w v"
        then obtain u w v where "c # cs = (c # u) @ w @ v" "accepts ic r w v" by auto
        then show ?thesis by blast
      qed
    qed
    then show ?thesis by simp
  qed
  finally show ?case .
qed


section \<open>The extractors never raise\<close>

lemma captures_patterns:
  "captures domain_pattern" "captures subject_pattern"
  "captures role_pattern1" "captures role_pattern2"
  by (simp_all add: domain_pattern_def subject_pattern_def role_pattern1_def role_pattern2_def)

lemma company_from_subject_Inr: "\<exists>v. company_from_subject subject = Inr v"
proof (cases "search False subject_pattern subject")
  case None
  then show ?thesis by (simp add: company_from_subject_def)
next
  case (Some g)
  from search_captures[OF captures_patterns(2) Some] obtain t where "g = Some t" by auto
  with Some show ?thesis by (simp add: company_from_subject_def group_text_def)
qed

lemma extract_company_Inr: "\<exists>v. extract_company email_from subject = Inr v"
proof (cases "search False domain_pattern (lower email_from)")
  case None
  then show ?thesis using company_from_subject_Inr by (simp add: extract_company_def)
next
  case (Some g)
  from search_captures[OF captures_patterns(1) Some] obtain t where "g = Some t" by auto
  with Some show ?thesis using company_from_subject_Inr[of subject]
    by (auto simp: extract_company_def Let_def)
qed

lemma group_text_search:
  "captures p \<Longrightarrow> search ic p s = Some g \<Longrightarrow> \<exists>t. g = Some t \<and> group_text g = Inr (title (strip t))"
  using search_captures[of p ic s g] by (auto simp: group_text_def)

lemma role_loop_Inr:
  "list_all captures ps \<Longrightarrow> \<exists>v. role_loop ps subject body = Inr v"
proof (induction ps)
  case Nil
  then show ?case by simp
next
  case (Cons p ps)
  then have c: "captures p" and ih: "\<exists>v. role_loop ps subject body = Inr v" by auto
  show ?case
    using ih group_text_search[OF c, of True subject] group_text_search[OF c, of True "take 200 body"]
    by (auto split: option.splits)
qed

lemma extract_role_Inr: "\<exists>v. extract_role subject body = Inr v"
  unfolding extract_role_def
  by (rule role_loop_Inr) (simp add: patterns_def captures_patterns)

text \<open>
  Claim C9. For all strings, each of \<^verbatim>\<open>is_job_alert\<close>, \<^verbatim>\<open>extract_company\<close>,
  \<^verbatim>\<open>extract_role\<close> and \<^verbatim>\<open>categorize_status\<close> returns normally. The only operation of
  the four that can raise is a method call on \<^verbatim>\<open>match.group(1)\<close>; the extractors return
  a string and not \<open>AttributeError\<close>, because group 1 takes part in every match of the
  four patterns. The noise filter returns a truth value and the status is one of the five
  status names.
\<close>

theorem core_functions_total:
  "(\<exists>b. is_job_alert email_from subject = b) \<and>
   (\<exists>v. extract_company email_from subject = Inr v) \<and>
   (\<exists>v. extract_role subject body = Inr v) \<and>
   categorize_status subject body \<in> set [''Rejected'', ''Assessment'', ''Interview'', ''Applied'', ''Other'']"
  using extract_company_Inr[of email_from subject] extract_role_Inr[of subject body]
  by (simp add: categorize_status_def Let_def)

section \<open>The status classifier\<close>

text \<open>
  Claim C4. \<^verbatim>\<open>categorize_status\<close> looks at the lower-cased subject, a blank and the
  lower-cased first 500 characters of the body, and tests the keyword lists in the order
  Rejected, Assessment, Interview, Applied: the first list with a keyword that is a
  substring of that text gives the status, and the status is Other when there is none. A text
  with both ``unfortunately'' and ``interview'' is Rejected, and the subject
  ``CodeSignal Assessment Invitation - Interview Process'' with an empty body is
  Assessment.
\<close>

theorem categorize_status_priority:
  "status_text subject body = lower subject @ '' '' @ lower (take 500 body) \<and>
   categorize_status subject body =
     (if \<exists>kw\<in>set rejection_kw. sublist kw (status_text subject body) then ''Rejected''
      else if \<exists>kw\<in>set assessment_kw. sublist kw (status_text subject body) then ''Assessment''
      else if \<exists>kw\<in>set interview_kw. sublist kw (status_text subject body) then ''Interview''
      else if \<exists>kw\<in>set applied_kw. sublist kw (status_text subject body) then ''Applied''
      else ''Other'') \<and>
   (sublist ''unfortunately'' (status_text subject body) \<and>
    sublist ''interview'' (status_text subject body) \<longrightarrow>
      categorize_status subject body = ''Rejected'') \<and>
   categorize_status ''CodeSignal Assessment Invitation - Interview Process'' '''' = ''Assessment''"
proof -
  have a: "status_text subject body = lower subject @ '' '' @ lower (take 500 body)"
    by (rule status_text_eq)
  have b: "categorize_status subject body =
     (if \<exists>kw\<in>set rejection_kw. sublist kw (status_text subject body) then ''Rejected''
      else if \<exists>kw\<in>set assessment_kw. sublist kw (status_text subject body) then ''Assessment''
      else if \<exists>kw\<in>set interview_kw. sublist kw (status_text subject body) then ''Interview''
      else if \<exists>kw\<in>set applied_kw. sublist kw (status_text subject body) then ''Applied''
      else ''Other'')"
    by (simp only: categorize_status_def Let_def any_in_iff)
  have "''unfortunately'' \<in> set rejection_kw" by (simp add: rejection_kw_def)
  then have c: "sublist ''unfortunately'' (status_text subject body) \<and>
    sublist ''interview'' (status_text subject body) \<longrightarrow>
      categorize_status subject body = ''Rejected''"
    unfolding b by auto
  have d: "categorize_status ''CodeSignal Assessment Invitation - Interview Process'' '''' = ''Assessment''"
    by code_simp
  from a b c d show ?thesis by blast
qed

theorem categorize_status_priority_witness:
  "sublist ''unfortunately'' (status_text ''Unfortunately, after your interview'' ''We regret'') \<and>
   sublist ''interview'' (status_text ''Unfortunately, after your interview'' ''We regret'') \<and>
   categorize_status ''Unfortunately, after your interview'' ''We regret'' = ''Rejected''"
proof -
  have h: "sublist ''unfortunately'' (status_text ''Unfortunately, after your interview'' ''We regret'') \<and>
   sublist ''interview'' (status_text ''Unfortunately, after your interview'' ''We regret'')"
    by code_simp
  with categorize_status_priority[of "''Unfortunately, after your interview''" "''We regret''"]
  show ?thesis by blast
qed


section \<open>The noise filter\<close>

lemma is_job_alert_iff:
  "is_job_alert email_from subject \<longleftrightarrow>
     (\<exists>ind\<in>set spam_indicators. sublist ind (lower email_from @ '' '' @ lower subject))"
proof -
  have "lower (email_from @ '' '' @ subject) = lower email_from @ '' '' @ lower subject"
    using lower_blank by (simp add: lower_def)
  then show ?thesis by (simp add: is_job_alert_def Let_def any_in_iff)
qed

lemma is_job_alert_field:
  "any_in spam_indicators (lower email_from) \<or> any_in spam_indicators (lower subject)
     \<Longrightarrow> is_job_alert email_from subject"
proof -
  assume "any_in spam_indicators (lower email_from) \<or> any_in spam_indicators (lower subject)"
  then obtain ind where ind: "ind \<in> set spam_indicators"
    and s: "sublist ind (lower email_from) \<or> sublist ind (lower subject)"
    by (auto simp: any_in_iff)
  from s have "sublist ind (lower email_from @ '' '' @ lower subject)"
    by (auto simp: sublist_append sublist_Cons_right)
  with ind show ?thesis unfolding is_job_alert_iff by blast
qed

text \<open>
  Claim C2, as amended. \<^verbatim>\<open>is_job_alert\<close> returns true when the lower-cased sender or the
  lower-cased subject contains a denylisted substring. It returns true exactly when the
  lower-cased text ``sender, blank, subject'' contains one, so it returns false only when
  neither field contains one and none lies across the blank that joins them.
\<close>

theorem is_job_alert_denylist:
  "(any_in spam_indicators (lower email_from) \<or> any_in spam_indicators (lower subject)
      \<longrightarrow> is_job_alert email_from subject) \<and>
   (is_job_alert email_from subject \<longleftrightarrow>
      (\<exists>ind\<in>set spam_indicators. sublist ind (lower email_from @ '' '' @ lower subject)))"
  using is_job_alert_field[of email_from subject] is_job_alert_iff[of email_from subject]
  by blast

theorem is_job_alert_denylist_witness:
  "(any_in spam_indicators (lower ''jobs@linkedin.com'') \<or>
    any_in spam_indicators (lower ''New jobs for you'')) \<and>
   is_job_alert ''jobs@linkedin.com'' ''New jobs for you'' \<and>
   \<not> is_job_alert ''recruiting@acme.com'' ''Interview invitation''"
proof -
  have h: "any_in spam_indicators (lower ''jobs@linkedin.com'') \<or>
    any_in spam_indicators (lower ''New jobs for you'')"
    by code_simp
  have n: "\<not> is_job_alert ''recruiting@acme.com'' ''Interview invitation''"
    by code_simp
  from is_job_alert_denylist[of "''jobs@linkedin.com''" "''New jobs for you''"] h n
  show ?thesis by blast
qed

text \<open>
  The claim as stated fails: neither \<^verbatim>\<open>team@whats.new\<close> nor \<^verbatim>\<open>Jobs update from Acme\<close>
  contains a denylisted substring, and the pair is noise, because ``new jobs'' lies
  across the joining blank.
\<close>

theorem is_job_alert_join_counterexample:
  "\<not> any_in spam_indicators (lower ''team@whats.new'') \<and>
   \<not> any_in spam_indicators (lower ''Jobs update from Acme'') \<and>
   is_job_alert ''team@whats.new'' ''Jobs update from Acme''"
  by code_simp

section \<open>The report\<close>

lemma sorted_desc_sort_key:
  "sorted_wrt (\<lambda>a b. Date b \<le> Date a) (sort_key (\<lambda>a. - Date a) apps)"
proof -
  have "sorted (map (\<lambda>a. - Date a) (sort_key (\<lambda>a. - Date a) apps))" by (rule sorted_sort_key)
  then show ?thesis by (simp add: sorted_map)
qed

lemma parent_report_file:
  assumes "CHR ''/'' \<notin> set today"
  shows "parent (report_filename today) = ''output''"
proof -
  have "rev (''output/applications_'' @ today @ ''.csv'') =
      (''vsc.'' @ rev today) @ ''_snoitacilppa/tuptuo''"
    by simp
  moreover have "dropWhile (\<lambda>c. c \<noteq> CHR ''/'') ((''vsc.'' @ rev today) @ ''_snoitacilppa/tuptuo'') =
      dropWhile (\<lambda>c. c \<noteq> CHR ''/'') ''_snoitacilppa/tuptuo''"
    using assms by (intro dropWhile_append2) auto
  ultimately show ?thesis by (simp add: parent_def report_filename_def)
qed

text \<open>
  Claim C8. With no application \<^verbatim>\<open>generate_report\<close> writes nothing. With applications
  and no directory \<^verbatim>\<open>output\<close> the write raises and nothing is written. Otherwise the
  table written to \<^verbatim>\<open>output/applications_<today>.csv\<close> has the columns Date, Company,
  Role, Status, Subject in this order, one row for each application with its cells in
  that order, and the rows are all the applications (each as often as it occurs) in
  non-increasing order of Date; every other file is as before.
\<close>

theorem generate_report_table:
  assumes "CHR ''/'' \<notin> set today"
  shows "(apps = [] \<longrightarrow> generate_report today fs apps = Inr (None, fs)) \<and>
   (apps \<noteq> [] \<and> ''output'' \<notin> dirs fs \<longrightarrow> generate_report today fs apps = Inl OSError) \<and>
   (apps \<noteq> [] \<and> ''output'' \<in> dirs fs \<longrightarrow>
     (\<exists>rows. generate_report today fs apps =
         Inr (Some \<lparr>columns = [''Date'', ''Company'', ''Role'', ''Status'', ''Subject''], records = rows\<rparr>,
              fs\<lparr>files := (files fs)(''output/applications_'' @ today @ ''.csv'' \<mapsto>
                ([''Date'', ''Company'', ''Role'', ''Status'', ''Subject''],
                 map (\<lambda>a. [DateCell (Date a), StrCell (Company a), StrCell (Role a),
                           StrCell (Status a), StrCell (Subject a)]) rows))\<rparr>) \<and>
        mset rows = mset apps \<and>
        sorted_wrt (\<lambda>a b. Date b \<le> Date a) rows))"
proof -
  note p = parent_report_file[OF assms]
  have av: "application_values = (\<lambda>a. [DateCell (Date a), StrCell (Company a), StrCell (Role a),
                           StrCell (Status a), StrCell (Subject a)])"
    by (rule ext) (simp add: application_values_def)
  have 1: "apps = [] \<longrightarrow> generate_report today fs apps = Inr (None, fs)"
    by (simp add: generate_report_def)
  have 2: "apps \<noteq> [] \<and> ''output'' \<notin> dirs fs \<longrightarrow> generate_report today fs apps = Inl OSError"
    by (simp add: generate_report_def Let_def to_csv_def p)
  have "apps \<noteq> [] \<and> ''output'' \<in> dirs fs \<longrightarrow> generate_report today fs apps =
         Inr (Some \<lparr>columns = [''Date'', ''Company'', ''Role'', ''Status'', ''Subject''], records = sort_key (\<lambda>a. - Date a) apps\<rparr>,
              fs\<lparr>files := (files fs)(report_filename today \<mapsto>
                ([''Date'', ''Company'', ''Role'', ''Status'', ''Subject''],
                 map (\<lambda>a. [DateCell (Date a), StrCell (Company a), StrCell (Role a),
                           StrCell (Status a), StrCell (Subject a)]) (sort_key (\<lambda>a. - Date a) apps)))\<rparr>)"
    by (simp add: generate_report_def Let_def to_csv_def p sort_values_desc_def DataFrame_def
        application_keys_def av)
  moreover have "mset (sort_key (\<lambda>a. - Date a) apps) = mset apps" by simp
  ultimately have 3: "apps \<noteq> [] \<and> ''output'' \<in> dirs fs \<longrightarrow>
     (\<exists>rows. generate_report today fs apps =
         Inr (Some \<lparr>columns = [''Date'', ''Company'', ''Role'', ''Status'', ''Subject''], records = rows\<rparr>,
              fs\<lparr>files := (files fs)(report_filename today \<mapsto>
                ([''Date'', ''Company'', ''Role'', ''Status'', ''Subject''],
                 map (\<lambda>a. [DateCell (Date a), StrCell (Company a), StrCell (Role a),
                           StrCell (Status a), StrCell (Subject a)]) rows))\<rparr>) \<and>
        mset rows = mset apps \<and>
        sorted_wrt (\<lambda>a b. Date b \<le> Date a) rows)"
    using sorted_desc_sort_key[of apps] by blast
  from 1 2 3 show ?thesis unfolding report_filename_def by blast
qed

theorem generate_report_table_witness:
  "CHR ''/'' \<notin> set ''20261104'' \<and>
   [\<lparr>Date = 1, Company = ''Acme'', Role = ''Backend'', Status = ''Applied'', Subject = ''a''\<rparr>,
    \<lparr>Date = 5, Company = ''Initech'', Role = ''Unknown'', Status = ''Rejected'', Subject = ''b''\<rparr>] \<noteq> [] \<and>
   ''output'' \<in> dirs \<lparr>dirs = {''output''}, files = Map.empty\<rparr> \<and>
   ''output'' \<notin> dirs \<lparr>dirs = {}, files = Map.empty\<rparr> \<and>
   (\<exists>rows. generate_report ''20261104'' \<lparr>dirs = {''output''}, files = Map.empty\<rparr>
       [\<lparr>Date = 1, Company = ''Acme'', Role = ''Backend'', Status = ''Applied'', Subject = ''a''\<rparr>,
        \<lparr>Date = 5, Company = ''Initech'', Role = ''Unknown'', Status = ''Rejected'', Subject = ''b''\<rparr>] =
         Inr (Some \<lparr>columns = [''Date'', ''Company'', ''Role'', ''Status'', ''Subject''], records = rows\<rparr>,
              \<lparr>dirs = {''output''},
               files = [''output/applications_20261104.csv'' \<mapsto>
                ([''Date'', ''Company'', ''Role'', ''Status'', ''Subject''],
                 map (\<lambda>a. [DateCell (Date a), StrCell (Company a), StrCell (Role a),
                           StrCell (Status a), StrCell (Subject a)]) rows)]\<rparr>) \<and>
        mset rows = mset [\<lparr>Date = 1, Company = ''Acme'', Role = ''Backend'', Status = ''Applied'', Subject = ''a''\<rparr>,
                          \<lparr>Date = 5, Company = ''Initech'', Role = ''Unknown'', Status = ''Rejected'', Subject = ''b''\<rparr>] \<and>
        sorted_wrt (\<lambda>a b. Date b \<le> Date a) rows) \<and>
   generate_report ''20261104'' \<lparr>dirs = {}, files = Map.empty\<rparr>
       [\<lparr>Date = 1, Company = ''Acme'', Role = ''Backend'', Status = ''Applied'', Subject = ''a''\<rparr>,
        \<lparr>Date = 5, Company = ''Initech'', Role = ''Unknown'', Status = ''Rejected'', Subject = ''b''\<rparr>] = Inl OSError"
proof -
  have t: "CHR ''/'' \<notin> set ''20261104''" by simp
  have n: "[\<lparr>Date = 1, Company = ''Acme'', Role = ''Backend'', Status = ''Applied'', Subject = ''a''\<rparr>,
    \<lparr>Date = 5, Company = ''Initech'', Role = ''Unknown'', Status = ''Rejected'', Subject = ''b''\<rparr>] \<noteq> []" by simp
  have d: "''output'' \<in> dirs \<lparr>dirs = {''output''}, files = Map.empty\<rparr>" by simp
  have e: "''output'' \<notin> dirs \<lparr>dirs = {}, files = Map.empty\<rparr>" by simp
  note g = generate_report_table[OF t]
  from g[of "[\<lparr>Date = 1, Company = ''Acme'', Role = ''Backend'', Status = ''Applied'', Subject = ''a''\<rparr>,
    \<lparr>Date = 5, Company = ''Initech'', Role = ''Unknown'', Status = ''Rejected'', Subject = ''b''\<rparr>]" "\<lparr>dirs = {''output''}, files = Map.empty\<rparr>"] n d
  have w: "\<exists>rows. generate_report ''20261104'' \<lparr>dirs = {''output''}, files = Map.empty\<rparr>
       [\<lparr>Date = 1, Company = ''Acme'', Role = ''Backend'', Status = ''Applied'', Subject = ''a''\<rparr>,
        \<lparr>Date = 5, Company = ''Initech'', Role = ''Unknown'', Status = ''Rejected'', Subject = ''b''\<rparr>] =
         Inr (Some \<lparr>columns = [''Date'', ''Company'', ''Role'', ''Status'', ''Subject''], records = rows\<rparr>,
              \<lparr>dirs = {''output''},
               files = [''output/applications_20261104.csv'' \<mapsto>
                ([''Date'', ''Company'', ''Role'', ''Status'', ''Subject''],
                 map (\<lambda>a. [DateCell (Date a), StrCell (Company a), StrCell (Role a),
                           StrCell (Status a), StrCell (Subject a)]) rows)]\<rparr>) \<and>
        mset rows = mset [\<lparr>Date = 1, Company = ''Acme'', Role = ''Backend'', Status = ''Applied'', Subject = ''a''\<rparr>,
                          \<lparr>Date = 5, Company = ''Initech'', Role = ''Unknown'', Status = ''Rejected'', Subject = ''b''\<rparr>] \<and>
        sorted_wrt (\<lambda>a b. Date b \<le> Date a) rows"
    by simp
  from g[of "[\<lparr>Date = 1, Company = ''Acme'', Role = ''Backend'', Status = ''Applied'', Subject = ''a''\<rparr>,
    \<lparr>Date = 5, Company = ''Initech'', Role = ''Unknown'', Status = ''Rejected'', Subject = ''b''\<rparr>]" "\<lparr>dirs = {}, files = Map.empty\<rparr>"] n e
  have f: "generate_report ''20261104'' \<lparr>dirs = {}, files = Map.empty\<rparr>
       [\<lparr>Date = 1, Company = ''Acme'', Role = ''Backend'', Status = ''Applied'', Subject = ''a''\<rparr>,
        \<lparr>Date = 5, Company = ''Initech'', Role = ''Unknown'', Status = ''Rejected'', Subject = ''b''\<rparr>] = Inl OSError"
    by blast
  from t n d e w f show ?thesis by blast
qed

section \<open>Classifying one mail\<close>

text \<open>
  Claim C7. Two mails with the same sender, subject, body and time stamp are classified
  alike, whatever their identifiers and whatever list of applications each round starts
  from: either both are left out, or both add the same application, with the same Date,
  Company, Role, Status and Subject. The conversion of the time stamp is the same
  function in both rounds.
\<close>

theorem classification_deterministic:
  assumes "m_from m1 = m_from m2" and "m_subject m1 = m_subject m2"
    and "m_body m1 = m_body m2" and "m_internalDate m1 = m_internalDate m2"
  shows "(process_email fromtimestamp apps1 (Some m1) = Inr apps1 \<and>
          process_email fromtimestamp apps2 (Some m2) = Inr apps2) \<or>
         (\<exists>ev. process_email fromtimestamp apps1 (Some m1) = Inr (apps1 @ [ev]) \<and>
               process_email fromtimestamp apps2 (Some m2) = Inr (apps2 @ [ev]))"
proof -
  obtain company where c: "extract_company (m_from m2) (m_subject m2) = Inr company"
    using extract_company_Inr by blast
  obtain role where r: "extract_role (m_subject m2) (m_body m2) = Inr role"
    using extract_role_Inr by blast
  show ?thesis
    using assms c r by (simp add: process_email_def)
qed

theorem classification_deterministic_witness:
  "m_from \<lparr>msg_id = ''18c1'', m_from = ''hr@acme.org'', m_subject = ''Thank you for applying'',
       m_body = '''', m_internalDate = 1700000000000\<rparr> =
   m_from \<lparr>msg_id = ''77af'', m_from = ''hr@acme.org'', m_subject = ''Thank you for applying'',
       m_body = '''', m_internalDate = 1700000000000\<rparr> \<and>
   (\<exists>ev. process_email (\<lambda>ms. ms div 1000) []
            (Some \<lparr>msg_id = ''18c1'', m_from = ''hr@acme.org'', m_subject = ''Thank you for applying'',
       m_body = '''', m_internalDate = 1700000000000\<rparr>) = Inr [ev] \<and>
         process_email (\<lambda>ms. ms div 1000)
            [\<lparr>Date = 3, Company = ''Initech'', Role = ''Unknown'', Status = ''Other'', Subject = ''x''\<rparr>]
            (Some \<lparr>msg_id = ''77af'', m_from = ''hr@acme.org'', m_subject = ''Thank you for applying'',
       m_body = '''', m_internalDate = 1700000000000\<rparr>) =
           Inr [\<lparr>Date = 3, Company = ''Initech'', Role = ''Unknown'', Status = ''Other'', Subject = ''x''\<rparr>, ev] \<and>
         Status ev = ''Applied'')"
proof -
  have n: "\<not> is_job_alert ''hr@acme.org'' ''Thank you for applying''" by code_simp
  have s: "categorize_status ''Thank you for applying'' '''' = ''Applied''" by code_simp
  show ?thesis
    using n s classification_deterministic
      [of "\<lparr>msg_id = ''18c1'', m_from = ''hr@acme.org'', m_subject = ''Thank you for applying'',
       m_body = '''', m_internalDate = 1700000000000\<rparr>"
          "\<lparr>msg_id = ''77af'', m_from = ''hr@acme.org'', m_subject = ''Thank you for applying'',
       m_body = '''', m_internalDate = 1700000000000\<rparr>"
          "\<lambda>ms. ms div 1000" "[]"
          "[\<lparr>Date = 3, Company = ''Initech'', Role = ''Unknown'', Status = ''Other'', Subject = ''x''\<rparr>]"]
    by (auto simp: process_email_def split: sum.splits)
qed

section \<open>The role extractor\<close>

lemma search_role_patterns_Nil:
  "search True role_pattern1 [] = None" "search True role_pattern2 [] = None"
  by code_simp+

text \<open>
  Claim C1, as amended. The loop of \<^verbatim>\<open>extract_role\<close> runs over the patterns, and for each
  pattern over subject and body: the winning match is the first one in the order pattern 1
  on the subject, pattern 1 on the first 200 characters of the body, pattern 2 on the
  subject, pattern 2 on the first 200 characters of the body (an empty body matches
  neither pattern). In particular a body matching pattern 1 wins over a subject that
  matches pattern 2 only.
\<close>

theorem extract_role_order:
  "extract_role subject body =
     (case search True role_pattern1 subject of Some g \<Rightarrow> group_text g
      | None \<Rightarrow>
     (case search True role_pattern1 (take 200 body) of Some g \<Rightarrow> group_text g
      | None \<Rightarrow>
     (case search True role_pattern2 subject of Some g \<Rightarrow> group_text g
      | None \<Rightarrow>
     (case search True role_pattern2 (take 200 body) of Some g \<Rightarrow> group_text g
      | None \<Rightarrow> Inr ''Unknown'')))) \<and>
   (search True role_pattern1 subject = None \<and>
    search True role_pattern1 (take 200 body) = Some (Some t) \<longrightarrow>
      extract_role subject body = Inr (title (strip t)))"
proof -
  have loop: "role_loop [role_pattern1, role_pattern2] subject body =
     (case search True role_pattern1 subject of Some g \<Rightarrow> group_text g
      | None \<Rightarrow>
     (case search True role_pattern1 (take 200 body) of Some g \<Rightarrow> group_text g
      | None \<Rightarrow>
     (case search True role_pattern2 subject of Some g \<Rightarrow> group_text g
      | None \<Rightarrow>
     (case search True role_pattern2 (take 200 body) of Some g \<Rightarrow> group_text g
      | None \<Rightarrow> Inr ''Unknown''))))"
  proof (cases "body = []")
    case True
    then show ?thesis
      by (simp add: search_role_patterns_Nil del: search.simps split: option.splits)
  next
    case False
    then show ?thesis
      by (simp del: search.simps split: option.splits)
  qed
  then show ?thesis
    by (simp add: extract_role_def patterns_def group_text_def del: search.simps role_loop.simps)
qed

theorem extract_role_order_witness:
  "search True role_pattern1 ''Frontend opening'' = None \<and>
   search True role_pattern1 (take 200 ''We are hiring for Platform Engineer at Acme'') =
     Some (Some ''Platform Engineer'') \<and>
   extract_role ''Frontend opening'' ''We are hiring for Platform Engineer at Acme'' =
     Inr ''Platform Engineer''"
proof -
  have a: "search True role_pattern1 ''Frontend opening'' = None" by code_simp
  have b: "search True role_pattern1 (take 200 ''We are hiring for Platform Engineer at Acme'') =
     Some (Some ''Platform Engineer'')" by code_simp
  have c: "title (strip ''Platform Engineer'') = ''Platform Engineer''" by code_simp
  from extract_role_order[THEN conjunct2, of "''Frontend opening''"
      "''We are hiring for Platform Engineer at Acme''" "''Platform Engineer''"] a b
  have "extract_role ''Frontend opening'' ''We are hiring for Platform Engineer at Acme'' =
     Inr (title (strip ''Platform Engineer''))" by blast
  then have d: "extract_role ''Frontend opening'' ''We are hiring for Platform Engineer at Acme'' =
     Inr ''Platform Engineer''" by (simp only: c)
  from a b d show ?thesis by blast
qed

text \<open>
  The order the claim states fails: the subject \<^verbatim>\<open>Backend opening\<close> matches pattern 2
  only, the body \<^verbatim>\<open>Position: Data Analyst - apply\<close> matches pattern 1, and the role is
  taken from the body.
\<close>

theorem extract_role_order_counterexample:
  "search True role_pattern1 ''Backend opening'' = None \<and>
   search True role_pattern2 ''Backend opening'' = Some (Some ''Backend'') \<and>
   search True role_pattern1 (take 200 ''Position: Data Analyst - apply'') =
     Some (Some ''Data Analyst'') \<and>
   extract_role ''Backend opening'' ''Position: Data Analyst - apply'' = Inr ''Data Analyst''"
  by code_simp

section \<open>Empty results of the extractors\<close>

text \<open>
  Claim C3 says that \<^verbatim>\<open>extract_company\<close> and \<^verbatim>\<open>extract_role\<close> never return the empty
  string. The captured group of the subject pattern and of pattern 1 may consist of white
  space only, which \<^verbatim>\<open>strip()\<close> removes: for the sender \<^verbatim>\<open>hr@acme.org\<close> and the subject
  ``Offer at'', two blanks, ``- Team'' the company is the empty string, and for the
  subject ``Role:'', six blanks, ``- Acme'' with an empty body the role is the empty
  string.
\<close>

theorem extractors_empty_result:
  "extract_company ''hr@acme.org'' ''Offer at  - Team'' = Inr [] \<and>
   extract_role ''Role:      - Acme'' '''' = Inr []"
  by code_simp

section \<open>The company extractor\<close>

text \<open>
  Claim C5. When the domain pattern finds a label in the lower-cased sender and the label
  has at most two characters left after the platform names are deleted (none left
  included), \<^verbatim>\<open>extract_company\<close> returns what the subject pattern gives: the title-cased
  words after ``at'', or ``Unknown''. For the sender \<^verbatim>\<open>jobs@acme.greenhouse.io\<close> and the
  subject ``Update on your application at Acme Corp - Thanks'' the result is
  ``Acme Corp''.
\<close>

theorem extract_company_fallthrough:
  "(search False domain_pattern (lower email_from) = Some (Some label) \<and>
    length (strip_platforms label) \<le> 2 \<longrightarrow>
      extract_company email_from subject =
        (case search False subject_pattern subject of
           None \<Rightarrow> Inr ''Unknown''
         | Some g \<Rightarrow> group_text g)) \<and>
   extract_company ''jobs@acme.greenhouse.io''
     ''Update on your application at Acme Corp - Thanks'' = Inr ''Acme Corp''"
proof -
  have "extract_company ''jobs@acme.greenhouse.io''
     ''Update on your application at Acme Corp - Thanks'' = Inr ''Acme Corp''"
    by code_simp
  then show ?thesis
    by (auto simp: extract_company_def company_from_subject_def Let_def)
qed

theorem extract_company_fallthrough_witness:
  "search False domain_pattern (lower ''noreply@myworkday.com'') = Some (Some ''myworkday'') \<and>
   strip_platforms ''myworkday'' = ''my'' \<and>
   search False domain_pattern (lower ''jobs@Greenhouse.io'') = Some (Some ''greenhouse'') \<and>
   strip_platforms ''greenhouse'' = [] \<and>
   extract_company ''noreply@myworkday.com'' ''Your application at Initech | Next steps'' =
     Inr ''Initech'' \<and>
   extract_company ''jobs@Greenhouse.io'' ''Your application at Initech | Next steps'' =
     Inr ''Initech''"
proof -
  have a: "search False domain_pattern (lower ''noreply@myworkday.com'') = Some (Some ''myworkday'')"
    by code_simp
  have b: "strip_platforms ''myworkday'' = ''my''" by code_simp
  have c: "search False domain_pattern (lower ''jobs@Greenhouse.io'') = Some (Some ''greenhouse'')"
    by code_simp
  have d: "strip_platforms ''greenhouse'' = []" by code_simp
  have e: "(case search False subject_pattern ''Your application at Initech | Next steps'' of
           None \<Rightarrow> Inr ''Unknown''
         | Some g \<Rightarrow> group_text g) = Inr ''Initech''" by code_simp
  have l1: "length (strip_platforms ''myworkday'') \<le> 2" unfolding b by simp
  have l2: "length (strip_platforms ''greenhouse'') \<le> 2" unfolding d by simp
  from extract_company_fallthrough[THEN conjunct1, of "''noreply@myworkday.com''" "''myworkday''"
      "''Your application at Initech | Next steps''"] a l1
  have f: "extract_company ''noreply@myworkday.com'' ''Your application at Initech | Next steps'' =
     Inr ''Initech''" unfolding e by blast
  from extract_company_fallthrough[THEN conjunct1, of "''jobs@Greenhouse.io''" "''greenhouse''"
      "''Your application at Initech | Next steps''"] c l2
  have g: "extract_company ''jobs@Greenhouse.io'' ''Your application at Initech | Next steps'' =
     Inr ''Initech''" unfolding e by blast
  from a b c d f g show ?thesis by blast
qed


section \<open>Case sensitivity of the company extractor\<close>

lemma lit_exact: "lit_ok False l w \<Longrightarrow> length w = length l \<Longrightarrow> w = l"
  by (induction "False" l w rule: lit_ok.induct) auto

lemma lit_self: "lit_ok False l l"
  by (induction l) auto

lemma accepts_Lit_False: "accepts False (Lit l) w rest \<longleftrightarrow> w = l"
  using lit_exact[of l w] lit_self[of l] by auto

lemma accepts_Cat:
  "accepts ic (Cat a b) w rest \<longleftrightarrow>
     (\<exists>u v. w = u @ v \<and> accepts ic a u (v @ rest) \<and> accepts ic b v rest)"
  by simp

lemma accepts_spaces:
  "accepts False (Rep [Space] lo None True) w rest \<longleftrightarrow> list_all is_space w \<and> lo \<le> length w"
  by (simp add: in_class_def list_all_iff)

lemma accepts_label:
  "accepts False (Group (Rep [Word, Ch CHR ''-''] 1 None True)) w rest \<longleftrightarrow>
     list_all (\<lambda>c. is_word c \<or> c = CHR ''-'') w \<and> w \<noteq> []"
  by (cases w) (auto simp: in_class_def list_all_iff)

lemma accepts_tld:
  "accepts False (Or (Lit ''com'') (Or (Lit ''io'') (Or (Lit ''ai'') (Lit ''co'')))) w rest \<longleftrightarrow>
     w \<in> set [''com'', ''io'', ''ai'', ''co'']"
  by (simp only: accepts.simps(4) accepts_Lit_False) auto

lemma accepts_domain_iff:
  "accepts False domain_pattern w v \<longleftrightarrow>
     (\<exists>label tld. w = ''@'' @ label @ ''.'' @ tld \<and> label \<noteq> [] \<and>
        list_all (\<lambda>c. is_word c \<or> c = CHR ''-'') label \<and>
        tld \<in> set [''com'', ''io'', ''ai'', ''co''])"
  unfolding domain_pattern_def
  by (simp only: accepts_Cat accepts_Lit_False accepts_label accepts_tld) blast

lemma domain_search_None_iff:
  "search False domain_pattern s = None \<longleftrightarrow>
     \<not> (\<exists>label tld. label \<noteq> [] \<and> list_all (\<lambda>c. is_word c \<or> c = CHR ''-'') label \<and>
          tld \<in> set [''com'', ''io'', ''ai'', ''co''] \<and>
          sublist (''@'' @ label @ ''.'' @ tld) s)"
  unfolding search_None_iff accepts_domain_iff sublist_def by blast

lemma accepts_subject_at:
  "accepts False subject_pattern w v \<Longrightarrow> \<exists>c rest. w = ''at'' @ c # rest \<and> is_space c"
proof -
  assume "accepts False subject_pattern w v"
  then obtain sp rest where w: "w = ''at'' @ sp @ rest" and sp: "list_all is_space sp" "1 \<le> length sp"
    unfolding subject_pattern_def
    by (simp only: accepts_Cat accepts_Lit_False accepts_spaces) blast
  then obtain c sp' where "sp = c # sp'" by (cases sp) auto
  with w sp show ?thesis by auto
qed

lemma subject_search_None:
  "\<not> (\<exists>c. is_space c \<and> sublist (''at'' @ [c]) subject) \<Longrightarrow>
     search False subject_pattern subject = None"
proof -
  assume h: "\<not> (\<exists>c. is_space c \<and> sublist (''at'' @ [c]) subject)"
  have "\<not> (\<exists>u w v. subject = u @ w @ v \<and> accepts False subject_pattern w v)"
  proof
    assume "\<exists>u w v. subject = u @ w @ v \<and> accepts False subject_pattern w v"
    then obtain u w v where s: "subject = u @ w @ v" and a: "accepts False subject_pattern w v"
      by blast
    from accepts_subject_at[OF a] obtain c rest where w: "w = ''at'' @ c # rest" and c: "is_space c"
      by blast
    have "subject = u @ (''at'' @ [c]) @ (rest @ v)" using s w by simp
    then have "sublist (''at'' @ [c]) subject" unfolding sublist_def by blast
    with h c show False by blast
  qed
  then show ?thesis by (rule search_None_iff[THEN iffD2])
qed

lemma no_at_space:
  "\<not> (\<exists>c. is_space c \<and> sublist (''at'' @ [c]) ''Application update: Interview At Acme Corp'')"
  by (auto simp: sublist_Cons_right prefix_Cons is_space_def code_def)

text \<open>
  Claim C10. The subject pattern of \<^verbatim>\<open>extract_company\<close> is matched without
  \<^verbatim>\<open>re.IGNORECASE\<close>. When the lower-cased sender contains no \<^verbatim>\<open>@label.tld\<close> (a non-empty
  label of word characters and hyphens, and a tld among com, io, ai, co) and the subject
  contains no lower-case ``at'' followed by a white space character, the result is
  ``Unknown'', also for a subject with a capitalised ``At'' and words after it;
  \<^verbatim>\<open>extract_role\<close> in contrast finds the role after an upper-case ``FOR''.
\<close>

theorem extract_company_case_sensitive:
  assumes "\<not> (\<exists>label tld. label \<noteq> [] \<and> list_all (\<lambda>c. is_word c \<or> c = CHR ''-'') label \<and>
          tld \<in> set [''com'', ''io'', ''ai'', ''co''] \<and>
          sublist (''@'' @ label @ ''.'' @ tld) (lower email_from))"
    and "\<not> (\<exists>c. is_space c \<and> sublist (''at'' @ [c]) subject)"
  shows "extract_company email_from subject = Inr ''Unknown''"
proof -
  from assms(1) have d: "search False domain_pattern (lower email_from) = None"
    by (rule domain_search_None_iff[THEN iffD2])
  from subject_search_None[OF assms(2)] have s: "search False subject_pattern subject = None" .
  show ?thesis by (simp add: extract_company_def company_from_subject_def d s)
qed

theorem extract_company_case_sensitive_witness:
  "\<not> (\<exists>label tld. label \<noteq> [] \<and> list_all (\<lambda>c. is_word c \<or> c = CHR ''-'') label \<and>
          tld \<in> set [''com'', ''io'', ''ai'', ''co''] \<and>
          sublist (''@'' @ label @ ''.'' @ tld) (lower ''Recruiting Team <hr@acme.org>'')) \<and>
   \<not> (\<exists>c. is_space c \<and> sublist (''at'' @ [c]) ''Application update: Interview At Acme Corp'') \<and>
   extract_company ''Recruiting Team <hr@acme.org>'' ''Application update: Interview At Acme Corp'' =
     Inr ''Unknown'' \<and>
   extract_role ''Application update: Interview FOR Data Analyst At Acme Corp'' [] = Inr ''Data Analyst''"
proof -
  have "search False domain_pattern (lower ''Recruiting Team <hr@acme.org>'') = None"
    by code_simp
  then have a: "\<not> (\<exists>label tld. label \<noteq> [] \<and> list_all (\<lambda>c. is_word c \<or> c = CHR ''-'') label \<and>
          tld \<in> set [''com'', ''io'', ''ai'', ''co''] \<and>
          sublist (''@'' @ label @ ''.'' @ tld) (lower ''Recruiting Team <hr@acme.org>''))"
    by (rule domain_search_None_iff[THEN iffD1])
  note b = no_at_space
  have c: "extract_role ''Application update: Interview FOR Data Analyst At Acme Corp'' [] = Inr ''Data Analyst''"
    by code_simp
  from extract_company_case_sensitive[OF a b] a b c show ?thesis by blast
qed


section \<open>The pipeline on the three mails of the example\<close>

lemma sublist_append_split:
  assumes "sublist p (a @ b)" and "\<not> sublist p a" and "\<not> sublist p b"
  shows "joins_left p a \<and> joins_right p b"
proof -
  from assms obtain p1 p2 where p: "p = p1 @ p2" and s: "suffix p1 a" and x: "prefix p2 b"
    by (auto simp: sublist_append)
  have "p1 \<noteq> []"
  proof
    assume "p1 = []"
    with p x have "prefix p b" by simp
    with assms(3) show False by (auto dest: prefix_imp_sublist)
  qed
  moreover have "p2 \<noteq> []"
  proof
    assume "p2 = []"
    with p s have "suffix p a" by simp
    with assms(2) show False by (auto dest: suffix_imp_sublist)
  qed
  ultimately have k: "1 \<le> length p1" "length p1 < length p" using p by (auto simp: Suc_le_eq)
  have "take (length p1) p = p1" "drop (length p1) p = p2" using p by auto
  with s x k have "\<exists>k\<in>set [1 ..< length p]. suffix (take k p) a"
    "\<exists>k\<in>set [1 ..< length p]. prefix (drop k p) b"
    by (auto intro!: bexI[of _ "length p1"])
  then show ?thesis by (simp add: joins_left_def joins_right_def list_ex_iff)
qed

lemma not_any_in_append_right:
  assumes "\<not> any_in kws a" and "\<not> any_in kws b" and "\<not> list_ex (\<lambda>p. joins_right p b) kws"
  shows "\<not> any_in kws (a @ b)"
proof
  assume "any_in kws (a @ b)"
  then obtain p where p: "p \<in> set kws" "sublist p (a @ b)" by (auto simp: any_in_iff)
  with assms(1,2) have "\<not> sublist p a" "\<not> sublist p b" by (auto simp: any_in_iff)
  from sublist_append_split[OF p(2) this] p(1) assms(3) show False
    by (auto simp: list_ex_iff)
qed

lemma not_any_in_append_left:
  assumes "\<not> any_in kws a" and "\<not> any_in kws b" and "\<not> list_ex (\<lambda>p. joins_left p a) kws"
  shows "\<not> any_in kws (a @ b)"
proof
  assume "any_in kws (a @ b)"
  then obtain p where p: "p \<in> set kws" "sublist p (a @ b)" by (auto simp: any_in_iff)
  with assms(1,2) have "\<not> sublist p a" "\<not> sublist p b" by (auto simp: any_in_iff)
  from sublist_append_split[OF p(2) this] p(1) assms(3) show False
    by (auto simp: list_ex_iff)
qed

lemma any_in_append_leftI: "any_in kws a \<Longrightarrow> any_in kws (a @ b)"
  by (auto simp: any_in_iff sublist_append)

lemma any_in_concat:
  "any_in (ks1 @ ks2) s \<longleftrightarrow> any_in ks1 s \<or> any_in ks2 s"
  by (auto simp: any_in_iff)

lemma is_job_alert_eq:
  "is_job_alert email_from subject = any_in spam_indicators (lower email_from @ '' '' @ lower subject)"
  by (simp add: is_job_alert_iff any_in_iff)

lemma rejected_subject_clean:
  "\<not> any_in spam_indicators ('' '' @ lower rejected_subject)"
  "\<not> list_ex (\<lambda>p. joins_right p ('' '' @ lower rejected_subject)) spam_indicators"
  by code_simp+

lemma applied_subject_clean:
  "\<not> any_in spam_indicators ('' '' @ lower applied_subject)"
  "\<not> list_ex (\<lambda>p. joins_right p ('' '' @ lower applied_subject)) spam_indicators"
  by code_simp+

lemma not_alert_rejected:
  "\<not> any_in spam_indicators (lower email_from) \<Longrightarrow> \<not> is_job_alert email_from rejected_subject"
  unfolding is_job_alert_eq
  by (rule not_any_in_append_right) (simp_all only: rejected_subject_clean not_False_eq_True)

lemma not_alert_applied:
  "\<not> any_in spam_indicators (lower email_from) \<Longrightarrow> \<not> is_job_alert email_from applied_subject"
  unfolding is_job_alert_eq
  by (rule not_any_in_append_right) (simp_all only: applied_subject_clean not_False_eq_True)

lemma alert_indeed: "is_job_alert ''jobs@indeed.com'' subject"
proof -
  have "any_in spam_indicators (lower ''jobs@indeed.com'')" by code_simp
  then show ?thesis by (rule is_job_alert_field[OF disjI1])
qed

lemma status_text_split:
  "status_text subject body = (lower subject @ '' '') @ lower (take 500 body)"
  by (simp add: status_text_eq)

lemma status_rejected: "categorize_status rejected_subject body = ''Rejected''"
proof -
  have "any_in rejection_kw (lower rejected_subject @ '' '')" by code_simp
  then have "any_in rejection_kw (status_text rejected_subject body)"
    unfolding status_text_split by (rule any_in_append_leftI)
  then show ?thesis by (simp add: categorize_status_def Let_def)
qed

lemma applied_subject_kw:
  "\<not> any_in (rejection_kw @ assessment_kw @ interview_kw) (lower applied_subject @ '' '')"
  "\<not> list_ex (\<lambda>p. joins_left p (lower applied_subject @ '' ''))
       (rejection_kw @ assessment_kw @ interview_kw)"
  "any_in applied_kw (lower applied_subject @ '' '')"
  by code_simp+

lemma status_applied:
  assumes "\<not> any_in (rejection_kw @ assessment_kw @ interview_kw) (lower (take 500 body))"
  shows "categorize_status applied_subject body = ''Applied''"
proof -
  have "\<not> any_in (rejection_kw @ assessment_kw @ interview_kw) (status_text applied_subject body)"
    unfolding status_text_split
    by (rule not_any_in_append_left) (simp_all only: applied_subject_kw assms not_False_eq_True)
  moreover have "any_in applied_kw (status_text applied_subject body)"
    unfolding status_text_split by (rule any_in_append_leftI) (rule applied_subject_kw(3))
  ultimately show ?thesis by (simp add: categorize_status_def Let_def any_in_concat)
qed

lemma process_kept:
  "\<not> is_job_alert (m_from e) (m_subject e) \<Longrightarrow>
   \<exists>a. process_email f apps (Some e) = Inr (apps @ [a]) \<and>
       Status a = categorize_status (m_subject e) (m_body e) \<and> Subject a = m_subject e \<and>
       Date a = f (m_internalDate e)"
  using extract_company_Inr[of "m_from e" "m_subject e"] extract_role_Inr[of "m_subject e" "m_body e"]
  by (auto simp: process_email_def)

lemma process_email_events:
  "process_email f apps email = Inr (apps @ events_of f email)"
proof (cases email)
  case None
  then show ?thesis by (simp add: events_of_def process_email_def)
next
  case (Some e)
  obtain company where c: "extract_company (m_from e) (m_subject e) = Inr company"
    using extract_company_Inr by blast
  obtain role where r: "extract_role (m_subject e) (m_body e) = Inr role"
    using extract_role_Inr by blast
  show ?thesis using Some c r by (simp add: events_of_def process_email_def)
qed

lemma analyze_events:
  "analyze_applications f apps emails = Inr (apps @ concat (map (events_of f) emails))"
  by (induction emails arbitrary: apps) (simp_all add: process_email_events)

lemma mset_concat_map:
  "mset (concat (map g xs)) = sum_mset (image_mset (\<lambda>x. mset (g x)) (mset xs))"
  by (induction xs) simp_all

lemma events_noise:
  "is_job_alert (m_from e) (m_subject e) \<Longrightarrow> events_of f (Some e) = []"
  by (simp add: events_of_def process_email_def)

lemma events_kept:
  "\<not> is_job_alert (m_from e) (m_subject e) \<Longrightarrow>
   \<exists>a. events_of f (Some e) = [a] \<and>
       Status a = categorize_status (m_subject e) (m_body e) \<and> Subject a = m_subject e"
  using process_kept[of e f "[]"] by (auto simp: events_of_def)

text \<open>
  Claim C6, as amended. Three mails are processed, in any order, starting from no
  application: one from \<^verbatim>\<open>jobs@indeed.com\<close>, one with the subject ``Unfortunately, we
  have decided to move forward with other candidates'' and one with the subject ``Thank
  you for applying to Acme - Software Engineer'', the last two from senders without a
  denylisted substring. When the first 500 characters of the body of the third mail
  contain no keyword of the lists Rejected, Assessment and Interview (an empty body, for
  instance), the result is exactly two applications, one Rejected with the subject of the
  second mail and one Applied with the subject of the third, and none for the first mail.
  Every other field of the three mails is arbitrary.
\<close>

theorem pipeline_three_messages:
  assumes "m_from noise = ''jobs@indeed.com''"
    and "m_subject rej = ''Unfortunately, we have decided to move forward with other candidates''"
    and "\<not> any_in spam_indicators (lower (m_from rej))"
    and "m_subject app = ''Thank you for applying to Acme - Software Engineer''"
    and "\<not> any_in spam_indicators (lower (m_from app))"
    and "\<not> any_in (rejection_kw @ assessment_kw @ interview_kw) (lower (take 500 (m_body app)))"
    and "mset emails = {#Some noise, Some rej, Some app#}"
  shows "\<exists>e1 e2 apps. analyze_applications fromtimestamp [] emails = Inr apps \<and>
           mset apps = {#e1, e2#} \<and>
           Status e1 = ''Rejected'' \<and> Subject e1 = m_subject rej \<and>
           Status e2 = ''Applied'' \<and> Subject e2 = m_subject app"
proof -
  have sr: "m_subject rej = rejected_subject" and sa: "m_subject app = applied_subject"
    using assms(2,4) by (simp_all only: rejected_subject_def applied_subject_def)
  have 1: "events_of fromtimestamp (Some noise) = []"
    by (rule events_noise) (simp only: assms(1) alert_indeed)
  have "\<not> is_job_alert (m_from rej) (m_subject rej)"
    unfolding sr by (rule not_alert_rejected[OF assms(3)])
  from events_kept[OF this, of fromtimestamp] obtain e1 where
    2: "events_of fromtimestamp (Some rej) = [e1]"
    and e1: "Status e1 = ''Rejected''" "Subject e1 = m_subject rej"
    unfolding sr by (auto simp only: status_rejected)
  have "\<not> is_job_alert (m_from app) (m_subject app)"
    unfolding sa by (rule not_alert_applied[OF assms(5)])
  from events_kept[OF this, of fromtimestamp] obtain e2 where
    3: "events_of fromtimestamp (Some app) = [e2]"
    and e2: "Status e2 = ''Applied''" "Subject e2 = m_subject app"
    unfolding sa by (auto simp only: status_applied[OF assms(6)])
  let ?apps = "concat (map (events_of fromtimestamp) emails)"
  have a: "analyze_applications fromtimestamp [] emails = Inr ?apps"
    by (simp add: analyze_events)
  have "mset ?apps = {#e1, e2#}"
    unfolding mset_concat_map assms(7) by (simp add: 1 2 3)
  with a e1 e2 show ?thesis by blast
qed

theorem pipeline_three_messages_witness:
  "\<not> any_in spam_indicators (lower ''hr@initech.com'') \<and>
   \<not> any_in spam_indicators (lower ''careers@acme.com'') \<and>
   \<not> any_in (rejection_kw @ assessment_kw @ interview_kw)
       (lower (take 500 ''We received your application.'')) \<and>
   (\<exists>e1 e2 apps. analyze_applications id []
       [Some \<lparr>msg_id = ''m3'', m_from = ''careers@acme.com'', m_subject = ''Thank you for applying to Acme - Software Engineer'',
        m_body = ''We received your application.'', m_internalDate = 1700000200000\<rparr>,
        Some \<lparr>msg_id = ''m1'', m_from = ''jobs@indeed.com'', m_subject = ''New openings near you'',
        m_body = '''', m_internalDate = 1700000000000\<rparr>,
        Some \<lparr>msg_id = ''m2'', m_from = ''hr@initech.com'', m_subject = ''Unfortunately, we have decided to move forward with other candidates'',
        m_body = ''We wish you the best.'', m_internalDate = 1700000100000\<rparr>] = Inr apps \<and>
      mset apps = {#e1, e2#} \<and>
      Status e1 = ''Rejected'' \<and> Subject e1 = ''Unfortunately, we have decided to move forward with other candidates'' \<and>
      Status e2 = ''Applied'' \<and> Subject e2 = ''Thank you for applying to Acme - Software Engineer'')"
proof -
  have a: "\<not> any_in spam_indicators (lower ''hr@initech.com'')" by code_simp
  have b: "\<not> any_in spam_indicators (lower ''careers@acme.com'')" by code_simp
  have c: "\<not> any_in (rejection_kw @ assessment_kw @ interview_kw)
       (lower (take 500 ''We received your application.''))" by code_simp
  from pipeline_three_messages
    [where noise = "\<lparr>msg_id = ''m1'', m_from = ''jobs@indeed.com'', m_subject = ''New openings near you'',
        m_body = '''', m_internalDate = 1700000000000\<rparr>"
       and rej = "\<lparr>msg_id = ''m2'', m_from = ''hr@initech.com'', m_subject = ''Unfortunately, we have decided to move forward with other candidates'',
        m_body = ''We wish you the best.'', m_internalDate = 1700000100000\<rparr>"
       and app = "\<lparr>msg_id = ''m3'', m_from = ''careers@acme.com'', m_subject = ''Thank you for applying to Acme - Software Engineer'',
        m_body = ''We received your application.'', m_internalDate = 1700000200000\<rparr>"
       and emails = "[Some \<lparr>msg_id = ''m3'', m_from = ''careers@acme.com'', m_subject = ''Thank you for applying to Acme - Software Engineer'',
        m_body = ''We received your application.'', m_internalDate = 1700000200000\<rparr>,
        Some \<lparr>msg_id = ''m1'', m_from = ''jobs@indeed.com'', m_subject = ''New openings near you'',
        m_body = '''', m_internalDate = 1700000000000\<rparr>,
        Some \<lparr>msg_id = ''m2'', m_from = ''hr@initech.com'', m_subject = ''Unfortunately, we have decided to move forward with other candidates'',
        m_body = ''We wish you the best.'', m_internalDate = 1700000100000\<rparr>]"
       and fromtimestamp = id] a b c
  have "\<exists>e1 e2 apps. analyze_applications id []
       [Some \<lparr>msg_id = ''m3'', m_from = ''careers@acme.com'', m_subject = ''Thank you for applying to Acme - Software Engineer'',
        m_body = ''We received your application.'', m_internalDate = 1700000200000\<rparr>,
        Some \<lparr>msg_id = ''m1'', m_from = ''jobs@indeed.com'', m_subject = ''New openings near you'',
        m_body = '''', m_internalDate = 1700000000000\<rparr>,
        Some \<lparr>msg_id = ''m2'', m_from = ''hr@initech.com'', m_subject = ''Unfortunately, we have decided to move forward with other candidates'',
        m_body = ''We wish you the best.'', m_internalDate = 1700000100000\<rparr>] = Inr apps \<and>
      mset apps = {#e1, e2#} \<and>
      Status e1 = ''Rejected'' \<and> Subject e1 = ''Unfortunately, we have decided to move forward with other candidates'' \<and>
      Status e2 = ''Applied'' \<and> Subject e2 = ''Thank you for applying to Acme - Software Engineer''"
    by (simp add: add_mset_commute)
  with a b c show ?thesis by blast
qed

text \<open>
  Without the condition on the body the claim fails: the third mail with the body ``We
  would like to schedule an interview.'' is classified Interview.
\<close>

theorem pipeline_three_messages_counterexample:
  "\<not> any_in spam_indicators (lower ''hr@initech.com'') \<and>
   \<not> any_in spam_indicators (lower ''careers@acme.com'') \<and>
   analyze_applications id []
       [Some \<lparr>msg_id = ''m1'', m_from = ''jobs@indeed.com'', m_subject = ''New openings near you'',
        m_body = '''', m_internalDate = 1700000000000\<rparr>,
        Some \<lparr>msg_id = ''m2'', m_from = ''hr@initech.com'', m_subject = ''Unfortunately, we have decided to move forward with other candidates'',
        m_body = ''We wish you the best.'', m_internalDate = 1700000100000\<rparr>,
        Some \<lparr>msg_id = ''m3'', m_from = ''careers@acme.com'', m_subject = ''Thank you for applying to Acme - Software Engineer'',
        m_body = ''We would like to schedule an interview.'', m_internalDate = 1700000200000\<rparr>] =
     Inr [\<lparr>Date = 1700000100000, Company = ''Initech'', Role = ''Unknown'',
           Status = ''Rejected'', Subject = ''Unfortunately, we have decided to move forward with other candidates''\<rparr>,
          \<lparr>Date = 1700000200000, Company = ''Acme'', Role = ''Applying To Acme'',
           Status = ''Interview'', Subject = ''Thank you for applying to Acme - Software Engineer''\<rparr>]"
  by code_simp

end
